theory Spec2Isabelle
  imports Complex_Main
begin

section \<open>Strings and the character classes of the regular expressions\<close>

text \<open>
  A string is a list of code units. The embedding covers the code units
  \<open>0x00\<close> to \<open>0xFF\<close> (one \<^typ>\<open>char\<close> each); on that range the lowercase
  mapping, the white space set and the class \<^verbatim>\<open>\w\<close> below are those of ECMAScript.
\<close>

definition isWhiteSpace :: "char \<Rightarrow> bool" where
  \<comment> \<open>\<^verbatim>\<open>\s\<close> and the characters \<^verbatim>\<open>trim\<close> strips: TAB, LF, VT, FF, CR, SP, NBSP\<close>
  "isWhiteSpace c =
     (c = CHR 0x09 \<or> c = CHR 0x0A \<or> c = CHR 0x0B \<or> c = CHR 0x0C \<or>
      c = CHR 0x0D \<or> c = CHR 0x20 \<or> c = CHR 0xA0)"

definition isLower :: "char \<Rightarrow> bool" where
  "isLower c = (97 \<le> (of_char c :: nat) \<and> (of_char c :: nat) \<le> 122)"

definition isUpper :: "char \<Rightarrow> bool" where
  "isUpper c = (65 \<le> (of_char c :: nat) \<and> (of_char c :: nat) \<le> 90)"

definition isDigit :: "char \<Rightarrow> bool" where
  "isDigit c = (48 \<le> (of_char c :: nat) \<and> (of_char c :: nat) \<le> 57)"

definition isWordChar :: "char \<Rightarrow> bool" where
  \<comment> \<open>\<^verbatim>\<open>\w\<close> is \<^verbatim>\<open>[A-Za-z0-9_]\<close>\<close>
  "isWordChar c = (isLower c \<or> isUpper c \<or> isDigit c \<or> c = CHR ''_'')"

definition isHyphen :: "char \<Rightarrow> bool" where
  "isHyphen c = (c = CHR ''-'')"

definition lowerChar :: "char \<Rightarrow> char" where
  \<comment> \<open>A-Z and the capital letters \<open>0xC0\<close> to \<open>0xDE\<close> (not the sign \<open>0xD7\<close>) move up by 32\<close>
  "lowerChar c =
     (let n = (of_char c :: nat)
      in if (65 \<le> n \<and> n \<le> 90) \<or> (192 \<le> n \<and> n \<le> 222 \<and> n \<noteq> 215)
         then char_of (n + 32) else c)"

definition toLowerCase :: "string \<Rightarrow> string" where
  "toLowerCase s = map lowerChar s"

definition trim :: "string \<Rightarrow> string" where
  "trim s = rev (dropWhile isWhiteSpace (rev (dropWhile isWhiteSpace s)))"

text \<open>
  \<^verbatim>\<open>s.replace(/[C]/g, r)\<close>: every character of the class is replaced by \<open>r\<close>.
\<close>

fun replaceClass :: "(char \<Rightarrow> bool) \<Rightarrow> string \<Rightarrow> string \<Rightarrow> string" where
  "replaceClass P r [] = []"
| "replaceClass P r (c # cs) =
     (if P c then r @ replaceClass P r cs else c # replaceClass P r cs)"

text \<open>
  \<^verbatim>\<open>s.replace(/[C]+/g, r)\<close>: the scan goes left to right; where a character of
  the class stands, the greedy \<^verbatim>\<open>+\<close> takes the whole run, \<open>r\<close> is written and the
  scan goes on after the run.
\<close>

function replaceRuns :: "(char \<Rightarrow> bool) \<Rightarrow> string \<Rightarrow> string \<Rightarrow> string" where
  "replaceRuns P r [] = []"
| "replaceRuns P r (c # cs) =
     (if P c then r @ replaceRuns P r (dropWhile P cs) else c # replaceRuns P r cs)"
  by pat_completeness auto
termination
  by (relation "measure (\<lambda>(P, r, s). length s)")
     (auto simp: le_imp_less_Suc length_dropWhile_le)

definition isSpecial :: "char \<Rightarrow> bool" where
  \<comment> \<open>the class \<^verbatim>\<open>[^\w\s-]\<close>\<close>
  "isSpecial c = (\<not> (isWordChar c \<or> isWhiteSpace c \<or> isHyphen c))"

definition slugify :: "string \<Rightarrow> string" where
  "slugify text =
     replaceRuns isHyphen ''-''
       (replaceRuns isWhiteSpace ''-''
          (replaceClass isSpecial '''' (trim (toLowerCase text))))"

section \<open>Numbers\<close>

text \<open>
  The numbers of the catalog are identifiers and prices in minor units. A
  \<open>number\<close> is an integer or \<open>NaN\<close>; integers are exact (the doubles of the
  program are, up to \<open>2^53\<close>). \<open>strictEq\<close> is \<^verbatim>\<open>===\<close>: \<open>NaN\<close> equals nothing.
\<close>

datatype number = Num int | NaN

fun strictEq :: "number \<Rightarrow> number \<Rightarrow> bool" where
  "strictEq (Num a) (Num b) = (a = b)"
| "strictEq _ _ = False"




section \<open>The product catalog\<close>

record Product =
  pid :: number
  name :: string
  price :: number
  inStock :: bool

record ProductResponse = Product +
  slug :: string

text \<open>
  The field \<^verbatim>\<open>id\<close> of a product is \<open>pid\<close> here (\<^const>\<open>id\<close> is the identity function).
  The fixture \<^verbatim>\<open>products.json\<close> is the parameter \<open>products\<close> of every operation.
  \<^verbatim>\<open>Array.prototype.find\<close> is \<^const>\<open>find\<close>: the first element that satisfies the
  predicate, \<open>None\<close> for \<^verbatim>\<open>undefined\<close>.
\<close>

definition getProducts :: "Product list \<Rightarrow> Product list" where
  "getProducts products = products"

definition getProductById :: "Product list \<Rightarrow> number \<Rightarrow> Product option" where
  "getProductById products n = find (\<lambda>p. strictEq (pid p) n) products"

definition getProductBySlug :: "Product list \<Rightarrow> string \<Rightarrow> Product option" where
  "getProductBySlug products s = find (\<lambda>p. slugify (name p) = s) products"

section \<open>The routes\<close>

datatype body =
    ProductsBody "ProductResponse list"
  | ProductBody ProductResponse
  | ErrorBody string

record reply =
  code :: nat
  payload :: body

definition productResponse :: "Product \<Rightarrow> ProductResponse" where
  \<comment> \<open>\<^verbatim>\<open>{ ...product, slug: slugify(product.name) }\<close>\<close>
  "productResponse product =
     \<lparr>pid = pid product, name = name product, price = price product,
      inStock = inStock product, slug = slugify (name product)\<rparr>"

definition notFound :: reply where
  "notFound = \<lparr>code = 404, payload = ErrorBody ''Product not found''\<rparr>"

definition listRoute :: "Product list \<Rightarrow> reply" where
  \<comment> \<open>GET \<^verbatim>\<open>/products\<close>\<close>
  "listRoute products =
     \<lparr>code = 200, payload = ProductsBody (map productResponse (getProducts products))\<rparr>"


definition bySlugRoute :: "Product list \<Rightarrow> string \<Rightarrow> reply" where
  \<comment> \<open>GET \<^verbatim>\<open>/products/by-slug/:slug\<close>\<close>
  "bySlugRoute products slugParam =
     (case getProductBySlug products slugParam of
        None \<Rightarrow> notFound
      | Some product \<Rightarrow> \<lparr>code = 200, payload = ProductBody (productResponse product)\<rparr>)"

section \<open>Price formatting\<close>







section \<open>The slug algorithm as the specification words it\<close>

text \<open>
  Steps 1 and 2 are \<open>toLowerCase\<close> and \<open>trim\<close>. Step 3 keeps letters (\<open>A\<close> to \<open>Z\<close>
  and \<open>a\<close> to \<open>z\<close>, the letters of \<^verbatim>\<open>\w\<close>), digits, underscores and white space;
  steps 4 and 5 turn each run of a class into one hyphen. A run is followed with a
  flag: the hyphen is written where a run begins, and nothing for the rest of the
  run.
\<close>

definition isLetter :: "char \<Rightarrow> bool" where
  "isLetter c = (isLower c \<or> isUpper c)"

definition spec_keeps :: "char \<Rightarrow> bool" where
  "spec_keeps c = (isLetter c \<or> isDigit c \<or> c = CHR ''_'' \<or> isWhiteSpace c)"

fun runsToHyphen :: "(char \<Rightarrow> bool) \<Rightarrow> bool \<Rightarrow> string \<Rightarrow> string" where
  "runsToHyphen P inRun [] = []"
| "runsToHyphen P inRun (c # cs) =
     (if P c then (if inRun then runsToHyphen P True cs
                   else CHR ''-'' # runsToHyphen P True cs)
      else c # runsToHyphen P False cs)"

definition spec_deriveSlug :: "string \<Rightarrow> string" where
  "spec_deriveSlug s =
     runsToHyphen isHyphen False
       (runsToHyphen isWhiteSpace False
          (filter spec_keeps (trim (toLowerCase s))))"

text \<open>The same with the hyphen among the characters that step 3 keeps.\<close>

definition amended_keeps :: "char \<Rightarrow> bool" where
  "amended_keeps c = (spec_keeps c \<or> c = CHR ''-'')"

definition amended_deriveSlug :: "string \<Rightarrow> string" where
  "amended_deriveSlug s =
     runsToHyphen isHyphen False
       (runsToHyphen isWhiteSpace False
          (filter amended_keeps (trim (toLowerCase s))))"

definition isSlugChar :: "char \<Rightarrow> bool" where
  "isSlugChar c = (isLower c \<or> isDigit c \<or> c = CHR ''_'' \<or> c = CHR ''-'')"

text \<open>
  The position at which \<open>find\<close> stops (\<^verbatim>\<open>Array.prototype.findIndex\<close>), to tell
  apart two equal products of a collection.
\<close>

fun findIndex :: "('a \<Rightarrow> bool) \<Rightarrow> 'a list \<Rightarrow> nat option" where
  "findIndex P [] = None"
| "findIndex P (x # xs) = (if P x then Some 0 else map_option Suc (findIndex P xs))"

section \<open>A fixture\<close>

text \<open>
  The two products of the lookup example, and a third whose name gives the slug of
  the first.
\<close>

definition widget :: Product where
  "widget = \<lparr>pid = Num 1, name = ''Widget'', price = Num 500, inStock = True\<rparr>"

definition gadget :: Product where
  "gadget = \<lparr>pid = Num 2, name = ''Gadget'', price = Num 0, inStock = False\<rparr>"

definition shoutedWidget :: Product where
  "shoutedWidget = \<lparr>pid = Num 3, name = ''WIDGET!'', price = Num 700, inStock = True\<rparr>"

definition fixture :: "Product list" where
  "fixture = [widget, gadget, shoutedWidget]"

section \<open>Characters\<close>

lemma lowerChar_not_upper: "\<not> isUpper (lowerChar c)"
  by (auto simp: isUpper_def lowerChar_def Let_def)

lemma lowerChar_slug: "isSlugChar c \<Longrightarrow> lowerChar c = c"
  by (auto simp: isSlugChar_def isLower_def isDigit_def lowerChar_def Let_def)

lemma slug_not_ws: "isSlugChar c \<Longrightarrow> \<not> isWhiteSpace c"
  by (auto simp: isSlugChar_def isLower_def isDigit_def isWhiteSpace_def)

lemma slug_not_upper: "isSlugChar c \<Longrightarrow> \<not> isUpper c"
  by (auto simp: isSlugChar_def isLower_def isDigit_def isUpper_def)

lemma slug_not_special: "isSlugChar c \<Longrightarrow> \<not> isSpecial c"
  by (auto simp: isSlugChar_def isSpecial_def isWordChar_def isHyphen_def)

lemma amended_keeps_not_special: "amended_keeps = (\<lambda>c. \<not> isSpecial c)"
  by (rule ext)
     (auto simp: amended_keeps_def spec_keeps_def isLetter_def isSpecial_def
        isWordChar_def isHyphen_def)

section \<open>The string operations\<close>

lemma replaceClass_empty: "replaceClass P [] s = filter (\<lambda>c. \<not> P c) s"
  by (induction s) auto

lemma replaceRuns_none: "\<forall>c \<in> set s. \<not> P c \<Longrightarrow> replaceRuns P r s = s"
  by (induction s) auto

lemma set_dropWhile_subset: "set (dropWhile P xs) \<subseteq> set xs"
  by (induction xs) auto

lemma dropWhile_none: "\<forall>c \<in> set s. \<not> P c \<Longrightarrow> dropWhile P s = s"
  by (cases s) auto

lemma set_trim: "set (trim s) \<subseteq> set s"
proof -
  have "set (trim s) \<subseteq> set (dropWhile isWhiteSpace s)"
    unfolding trim_def
    using set_dropWhile_subset [of isWhiteSpace "rev (dropWhile isWhiteSpace s)"]
    by simp
  then show ?thesis
    using set_dropWhile_subset [of isWhiteSpace s] by blast
qed

lemma trim_none: "\<forall>c \<in> set s. \<not> isWhiteSpace c \<Longrightarrow> trim s = s"
  by (simp add: trim_def dropWhile_none)

text \<open>What a replacement of runs writes is what was there outside the class, or \<open>r\<close>.\<close>

lemma set_replaceRuns: "set (replaceRuns P r s) \<subseteq> {c \<in> set s. \<not> P c} \<union> set r"
proof (induction P r s rule: replaceRuns.induct)
  case (1 P r)
  then show ?case by simp
next
  case (2 P r c cs)
  show ?case
  proof (cases "P c")
    case True
    with 2 have "set (replaceRuns P r (dropWhile P cs))
        \<subseteq> {c \<in> set (dropWhile P cs). \<not> P c} \<union> set r"
      by simp
    also have "\<dots> \<subseteq> {c \<in> set cs. \<not> P c} \<union> set r"
      using set_dropWhile_subset [of P cs] by auto
    finally show ?thesis using True by auto
  next
    case False
    with 2 show ?thesis by auto
  qed
qed

lemma dropWhile_replaceRuns:
  "P h \<Longrightarrow> s = [] \<or> \<not> P (hd s) \<Longrightarrow>
   dropWhile P (replaceRuns P [h] s) = replaceRuns P [h] s"
  by (cases s) auto

lemma hd_dropWhile_not: "dropWhile P s = [] \<or> \<not> P (hd (dropWhile P s))"
  using hd_dropWhile [of P s] by blast

text \<open>After one pass no two characters of the class are neighbours, so a second pass
  changes nothing.\<close>

lemma replaceRuns_idem:
  "P h \<Longrightarrow> replaceRuns P [h] (replaceRuns P [h] s) = replaceRuns P [h] s"
proof (induction P "[h]" s rule: replaceRuns.induct)
  case (1 P)
  then show ?case by simp
next
  case (2 P c cs)
  show ?case
  proof (cases "P c")
    case True
    have "dropWhile P (replaceRuns P [h] (dropWhile P cs)) = replaceRuns P [h] (dropWhile P cs)"
      using dropWhile_replaceRuns [of P h "dropWhile P cs"] "2.prems"
        hd_dropWhile_not [of P cs]
      by blast
    with 2 True show ?thesis by simp
  next
    case False
    with 2 show ?thesis by simp
  qed
qed

lemma runsToHyphen_inRun: "runsToHyphen P True s = runsToHyphen P False (dropWhile P s)"
  by (induction s) auto

lemma replaceRuns_runsToHyphen: "replaceRuns P ''-'' s = runsToHyphen P False s"
  by (induction P "''-''" s rule: replaceRuns.induct) (auto simp: runsToHyphen_inRun)

section \<open>Slugs\<close>

lemma slugify_chars: "c \<in> set (slugify s) \<Longrightarrow> isSlugChar c"
proof -
  let ?l = "trim (toLowerCase s)"
  let ?r = "replaceClass isSpecial [] ?l"
  let ?w = "replaceRuns isWhiteSpace ''-'' ?r"
  assume "c \<in> set (slugify s)"
  then have "c \<in> set (replaceRuns isHyphen ''-'' ?w)"
    by (simp add: slugify_def)
  then have "c \<in> set ?w \<or> c = CHR ''-''"
    using set_replaceRuns [of isHyphen "''-''" ?w] by auto
  moreover have "c \<in> set ?w \<Longrightarrow> (c \<in> set ?r \<and> \<not> isWhiteSpace c) \<or> c = CHR ''-''"
    using set_replaceRuns [of isWhiteSpace "''-''" ?r] by auto
  moreover have "c \<in> set ?r \<Longrightarrow> \<not> isSpecial c \<and> c \<in> set ?l"
    by (simp add: replaceClass_empty)
  moreover have "c \<in> set ?l \<Longrightarrow> \<not> isUpper c"
    using set_trim [of "toLowerCase s"] lowerChar_not_upper
    by (auto simp: toLowerCase_def)
  ultimately show ?thesis
    by (auto simp: isSlugChar_def isSpecial_def isWordChar_def isHyphen_def)
qed

lemma slugify_fixed:
  assumes chars: "\<forall>c \<in> set t. isSlugChar c"
    and runs: "replaceRuns isHyphen ''-'' t = t"
  shows "slugify t = t"
proof -
  have "toLowerCase t = t"
    using chars by (simp add: toLowerCase_def lowerChar_slug map_idI)
  moreover have "trim t = t"
    using chars by (simp add: trim_none slug_not_ws)
  moreover have "replaceClass isSpecial [] t = t"
    using chars by (simp add: replaceClass_empty slug_not_special)
  moreover have "replaceRuns isWhiteSpace ''-'' t = t"
    using chars by (simp add: replaceRuns_none slug_not_ws)
  ultimately show ?thesis
    using runs by (simp add: slugify_def)
qed

lemma slugify_runs: "replaceRuns isHyphen ''-'' (slugify s) = slugify s"
  unfolding slugify_def by (rule replaceRuns_idem) (simp add: isHyphen_def)

text \<open>
  C1, as the specification has it, fails: step 3 of the specification removes the
  hyphen of \<open>a-b\<close> and gives \<open>ab\<close>, while the class \<^verbatim>\<open>[^\w\s-]\<close> of the code leaves
  the hyphen where it is.
\<close>

theorem slugify_spec_steps_counterexample:
  "slugify ''a-b'' \<noteq> spec_deriveSlug ''a-b'' \<and>
   slugify ''a-b'' = ''a-b'' \<and> spec_deriveSlug ''a-b'' = ''ab'' \<and>
   replaceClass isSpecial [] (trim (toLowerCase ''a-b'')) = ''a-b''"
  by code_simp

text \<open>
  C1, amended: for every string, \<open>slugify\<close> is the five steps in their order, where
  step 3 removes every character that is not a letter (\<open>A\<close> to \<open>Z\<close>, \<open>a\<close> to \<open>z\<close>), a
  digit, an underscore, white space or a hyphen; the hyphens of the input stay until
  step 5.
\<close>

theorem slugify_amended_steps: "slugify s = amended_deriveSlug s"
  by (simp add: slugify_def amended_deriveSlug_def replaceRuns_runsToHyphen
      replaceClass_empty amended_keeps_not_special)

theorem slugify_amended_steps_witness:
  "slugify '' Rock - n - Roll! '' = amended_deriveSlug '' Rock - n - Roll! '' \<and>
   amended_deriveSlug '' Rock - n - Roll! '' = ''rock-n-roll''"
proof -
  have "amended_deriveSlug '' Rock - n - Roll! '' = ''rock-n-roll''"
    by code_simp
  then show ?thesis
    using slugify_amended_steps [of "'' Rock - n - Roll! ''"] by simp
qed

text \<open>
  C4: \<open>slugify\<close> is idempotent; every slug is a fixed point of \<open>slugify\<close>.
\<close>

theorem slugify_idempotent: "slugify (slugify s) = slugify s"
proof (rule slugify_fixed)
  show "\<forall>c \<in> set (slugify s). isSlugChar c"
    using slugify_chars by blast
  show "replaceRuns isHyphen ''-'' (slugify s) = slugify s"
    by (rule slugify_runs)
qed

theorem slugify_idempotent_witness:
  "slugify (slugify ''  Hello,   World --  2.0 '') = slugify ''  Hello,   World --  2.0 '' \<and>
   slugify ''  Hello,   World --  2.0 '' = ''hello-world-20''"
proof -
  have "slugify ''  Hello,   World --  2.0 '' = ''hello-world-20''"
    by code_simp
  then show ?thesis
    using slugify_idempotent [of "''  Hello,   World --  2.0 ''"] by simp
qed

text \<open>
  C5: the three hyphens of \<open>a---b\<close> come out as one hyphen.
\<close>

theorem slugify_hyphen_collapse: "slugify ''a---b'' = ''a-b''"
  by code_simp

text \<open>
  C9: every character of a slug is a lowercase letter \<open>a\<close> to \<open>z\<close>, a digit, an
  underscore or a hyphen; none is white space or an uppercase letter.
\<close>

theorem slugify_url_safe:
  "\<forall>c \<in> set (slugify s). isSlugChar c \<and> \<not> isWhiteSpace c \<and> \<not> isUpper c"
  using slugify_chars slug_not_ws slug_not_upper by blast

theorem slugify_url_safe_witness:
  "slugify ''Cafe  Mocha_2 (XL)'' = ''cafe-mocha_2-xl'' \<and>
   list_all (\<lambda>c. isSlugChar c \<and> \<not> isWhiteSpace c \<and> \<not> isUpper c)
     (slugify ''Cafe  Mocha_2 (XL)'')"
proof -
  have "slugify ''Cafe  Mocha_2 (XL)'' = ''cafe-mocha_2-xl''"
    by code_simp
  then show ?thesis
    using slugify_url_safe [of "''Cafe  Mocha_2 (XL)''"] by (simp add: list_all_iff)
qed

section \<open>Lookups\<close>

lemma findIndex_find: "find P xs = map_option (nth xs) (findIndex P xs)"
  by (induction xs) (auto simp: option.map_comp comp_def)

lemma findIndex_Some:
  "findIndex P xs = Some i \<longleftrightarrow> i < length xs \<and> P (xs ! i) \<and> (\<forall>j<i. \<not> P (xs ! j))"
proof (induction xs arbitrary: i)
  case Nil
  then show ?case by simp
next
  case (Cons x xs)
  show ?case
  proof (cases "P x")
    case True
    then show ?thesis by (cases i) auto
  next
    case False
    show ?thesis
    proof (cases i)
      case 0
      with False show ?thesis by auto
    next
      case (Suc k)
      have "(\<forall>j<Suc k. \<not> P ((x # xs) ! j)) = (\<not> P x \<and> (\<forall>j<k. \<not> P (xs ! j)))"
        by (auto simp: less_Suc_eq_0_disj)
      with False Suc Cons.IH [of k] show ?thesis by auto
    qed
  qed
qed

lemma find_first:
  "find P xs = Some x \<longleftrightarrow> (\<exists>i<length xs. xs ! i = x \<and> P x \<and> (\<forall>j<i. \<not> P (xs ! j)))"
  by (auto simp: find_Some_iff)

text \<open>
  C2: for every slug \<open>s\<close> and every collection, \<open>getProductBySlug\<close> gives the first
  product in the order of the collection whose derived slug is \<open>s\<close>, compared as
  strings, and \<open>None\<close> when no product has that slug; of two products with the same
  slug the lookup never stops at the later one.
\<close>

theorem getProductBySlug_first_match:
  "(getProductBySlug ps s = None \<longleftrightarrow> (\<forall>p \<in> set ps. slugify (name p) \<noteq> s)) \<and>
   (\<forall>p. getProductBySlug ps s = Some p \<longleftrightarrow>
      (\<exists>i<length ps. ps ! i = p \<and> slugify (name p) = s \<and>
         (\<forall>j<i. slugify (name (ps ! j)) \<noteq> s))) \<and>
   getProductBySlug ps s = map_option (nth ps) (findIndex (\<lambda>p. slugify (name p) = s) ps) \<and>
   (\<forall>i j. i < j \<longrightarrow> j < length ps \<longrightarrow> slugify (name (ps ! i)) = slugify (name (ps ! j)) \<longrightarrow>
      findIndex (\<lambda>p. slugify (name p) = s) ps \<noteq> Some j)"
proof (intro conjI allI impI)
  show "getProductBySlug ps s = None \<longleftrightarrow> (\<forall>p \<in> set ps. slugify (name p) \<noteq> s)"
    by (auto simp: getProductBySlug_def find_None_iff)
next
  fix p
  show "getProductBySlug ps s = Some p \<longleftrightarrow>
      (\<exists>i<length ps. ps ! i = p \<and> slugify (name p) = s \<and>
         (\<forall>j<i. slugify (name (ps ! j)) \<noteq> s))"
    unfolding getProductBySlug_def by (rule find_first)
next
  show "getProductBySlug ps s = map_option (nth ps) (findIndex (\<lambda>p. slugify (name p) = s) ps)"
    unfolding getProductBySlug_def by (rule findIndex_find)
next
  fix i j
  assume "i < j" "j < length ps" "slugify (name (ps ! i)) = slugify (name (ps ! j))"
  then show "findIndex (\<lambda>p. slugify (name p) = s) ps \<noteq> Some j"
    by (auto simp: findIndex_Some)
qed

lemma fixture_slugs:
  "slugify (name widget) = ''widget''" "slugify (name gadget) = ''gadget''"
  "slugify (name shoutedWidget) = ''widget''"
  by (simp_all add: widget_def gadget_def shoutedWidget_def) code_simp+

theorem getProductBySlug_first_match_witness:
  "getProductBySlug fixture ''widget'' = Some widget \<and>
   getProductBySlug fixture ''Widget'' = None \<and>
   slugify (name (fixture ! 0)) = slugify (name (fixture ! 2)) \<and>
   findIndex (\<lambda>p. slugify (name p) = ''widget'') fixture \<noteq> Some 2"
proof -
  have len: "length fixture = 3" by (simp add: fixture_def)
  have same: "slugify (name (fixture ! 0)) = slugify (name (fixture ! 2))"
    by (simp add: fixture_def fixture_slugs)
  have "\<exists>i<length fixture. fixture ! i = widget \<and> slugify (name widget) = ''widget'' \<and>
      (\<forall>j<i. slugify (name (fixture ! j)) \<noteq> ''widget'')"
    by (rule exI [of _ 0]) (simp add: fixture_def fixture_slugs)
  then have a: "getProductBySlug fixture ''widget'' = Some widget"
    using getProductBySlug_first_match [of fixture "''widget''"] by blast
  have "\<forall>p \<in> set fixture. slugify (name p) \<noteq> ''Widget''"
    by (simp add: fixture_def fixture_slugs)
  then have b: "getProductBySlug fixture ''Widget'' = None"
    using getProductBySlug_first_match [of fixture "''Widget''"] by blast
  have c: "findIndex (\<lambda>p. slugify (name p) = ''widget'') fixture \<noteq> Some 2"
    using getProductBySlug_first_match [of fixture "''widget''"] same len
    by (metis zero_less_numeral lessI numeral_3_eq_3 numeral_2_eq_2)
  from a b same c show ?thesis by blast
qed

lemma find_distinct_key:
  "distinct (map f xs) \<Longrightarrow> x \<in> set xs \<Longrightarrow> find (\<lambda>y. f y = f x) xs = Some x"
  by (induction xs) auto

lemma find_member:
  "x \<in> set xs \<Longrightarrow> P x \<Longrightarrow> \<exists>i<length xs. find P xs = Some (xs ! i) \<and> P (xs ! i) \<and> (\<forall>j<i. \<not> P (xs ! j))"
proof -
  assume "x \<in> set xs" "P x"
  then have "find P xs \<noteq> None" by (auto simp: find_None_iff)
  then obtain y where "find P xs = Some y" by blast
  then show ?thesis by (auto simp: find_Some_iff)
qed

text \<open>
  C10: when the derived slugs of a collection are pairwise distinct, looking up the
  slug of a product \<open>p\<close> of the collection gives \<open>p\<close>; without that, it gives the
  first product of the collection that has the slug of \<open>p\<close>.
\<close>

theorem slug_round_trip:
  "(distinct (map (\<lambda>q. slugify (name q)) ps) \<longrightarrow> p \<in> set ps \<longrightarrow>
      getProductBySlug ps (slugify (name p)) = Some p) \<and>
   (p \<in> set ps \<longrightarrow>
      (\<exists>i<length ps. getProductBySlug ps (slugify (name p)) = Some (ps ! i) \<and>
         slugify (name (ps ! i)) = slugify (name p) \<and>
         (\<forall>j<i. slugify (name (ps ! j)) \<noteq> slugify (name p))))"
proof (intro conjI impI)
  assume "distinct (map (\<lambda>q. slugify (name q)) ps)" "p \<in> set ps"
  then show "getProductBySlug ps (slugify (name p)) = Some p"
    unfolding getProductBySlug_def by (rule find_distinct_key)
next
  assume "p \<in> set ps"
  then show "\<exists>i<length ps. getProductBySlug ps (slugify (name p)) = Some (ps ! i) \<and>
         slugify (name (ps ! i)) = slugify (name p) \<and>
         (\<forall>j<i. slugify (name (ps ! j)) \<noteq> slugify (name p))"
    unfolding getProductBySlug_def
    using find_member [of p ps "\<lambda>q. slugify (name q) = slugify (name p)"] by simp
qed

theorem slug_round_trip_witness:
  "distinct (map (\<lambda>q. slugify (name q)) [widget, gadget]) \<and> gadget \<in> set [widget, gadget] \<and>
   getProductBySlug [widget, gadget] (slugify (name gadget)) = Some gadget \<and>
   \<not> distinct (map (\<lambda>q. slugify (name q)) fixture) \<and> shoutedWidget \<in> set fixture \<and>
   getProductBySlug fixture (slugify (name shoutedWidget)) = Some widget"
proof -
  have d: "distinct (map (\<lambda>q. slugify (name q)) [widget, gadget])"
    by (simp add: fixture_slugs)
  then have a: "getProductBySlug [widget, gadget] (slugify (name gadget)) = Some gadget"
    using slug_round_trip [of "[widget, gadget]" gadget] by simp
  have n: "\<not> distinct (map (\<lambda>q. slugify (name q)) fixture)"
    by (simp add: fixture_def fixture_slugs)
  have m: "shoutedWidget \<in> set fixture"
    by (simp add: fixture_def)
  then obtain i where i: "i < length fixture"
    and r: "getProductBySlug fixture (slugify (name shoutedWidget)) = Some (fixture ! i)"
    and f: "\<forall>j<i. slugify (name (fixture ! j)) \<noteq> slugify (name shoutedWidget)"
    using slug_round_trip [of fixture shoutedWidget] by blast
  have "slugify (name (fixture ! 0)) = slugify (name shoutedWidget)"
    by (simp add: fixture_def fixture_slugs)
  with f have "i = 0" by (cases i) auto
  with r have b: "getProductBySlug fixture (slugify (name shoutedWidget)) = Some widget"
    by (simp add: fixture_def)
  from d a n m b show ?thesis by simp
qed

section \<open>Lookup by id and the routes\<close>

lemma strictEq_NaN: "strictEq x NaN = False"
  by (cases x) simp_all

lemma strictEq_Num: "strictEq x (Num k) \<longleftrightarrow> x = Num k"
  by (cases x) auto

lemma getProductById_NaN: "getProductById ps NaN = None"
  by (simp add: getProductById_def find_None_iff strictEq_NaN)

lemma getProductById_None: "getProductById ps (Num k) = None \<longleftrightarrow> (\<forall>p \<in> set ps. pid p \<noteq> Num k)"
  by (auto simp: getProductById_def find_None_iff strictEq_Num)










lemma fixture_ids: "pid widget = Num 1" "pid gadget = Num 2" "pid shoutedWidget = Num 3"
  by (simp_all add: widget_def gadget_def shoutedWidget_def)


text \<open>
  C6: for every integer \<open>k\<close> and every collection, \<open>getProductById\<close> gives the first
  product in the order of the collection whose id is \<open>k\<close>, and \<open>None\<close> when there is
  none; \<open>NaN\<close> finds nothing, and when every id of the collection is a positive
  integer, no \<open>k \<le> 0\<close> finds anything. The lookup is a total function: it has no
  error result.
\<close>

theorem getProductById_first_match:
  "(getProductById ps (Num k) = None \<longleftrightarrow> (\<forall>p \<in> set ps. pid p \<noteq> Num k)) \<and>
   (\<forall>p. getProductById ps (Num k) = Some p \<longleftrightarrow>
      (\<exists>i<length ps. ps ! i = p \<and> pid p = Num k \<and> (\<forall>j<i. pid (ps ! j) \<noteq> Num k))) \<and>
   getProductById ps NaN = None \<and>
   ((\<forall>p \<in> set ps. \<exists>m>0. pid p = Num m) \<longrightarrow> k \<le> 0 \<longrightarrow> getProductById ps (Num k) = None)"
proof (intro conjI allI impI)
  show "getProductById ps (Num k) = None \<longleftrightarrow> (\<forall>p \<in> set ps. pid p \<noteq> Num k)"
    by (rule getProductById_None)
next
  fix p
  show "getProductById ps (Num k) = Some p \<longleftrightarrow>
      (\<exists>i<length ps. ps ! i = p \<and> pid p = Num k \<and> (\<forall>j<i. pid (ps ! j) \<noteq> Num k))"
    unfolding getProductById_def by (simp add: find_first strictEq_Num)
next
  show "getProductById ps NaN = None"
    by (rule getProductById_NaN)
next
  assume pos: "\<forall>p \<in> set ps. \<exists>m>0. pid p = Num m" and k: "k \<le> 0"
  have "\<forall>p \<in> set ps. pid p \<noteq> Num k"
  proof
    fix p assume "p \<in> set ps"
    with pos obtain m where "0 < m" "pid p = Num m" by blast
    with k show "pid p \<noteq> Num k" by auto
  qed
  then show "getProductById ps (Num k) = None"
    by (simp add: getProductById_None)
qed

theorem getProductById_first_match_witness:
  "getProductById fixture (Num 2) = Some gadget \<and>
   getProductById fixture (Num 99) = None \<and>
   getProductById fixture (Num 0) = None \<and>
   getProductById fixture (Num (- 7)) = None \<and>
   getProductById fixture NaN = None"
proof -
  have "\<exists>i<length fixture. fixture ! i = gadget \<and> pid gadget = Num 2 \<and>
      (\<forall>j<i. pid (fixture ! j) \<noteq> Num 2)"
    by (rule exI [of _ 1]) (simp add: fixture_def fixture_ids)
  then have a: "getProductById fixture (Num 2) = Some gadget"
    using getProductById_first_match [of fixture 2] by blast
  have "\<forall>p \<in> set fixture. pid p \<noteq> Num 99"
    by (simp add: fixture_def fixture_ids)
  then have b: "getProductById fixture (Num 99) = None"
    using getProductById_first_match [of fixture 99] by blast
  have pos: "\<forall>p \<in> set fixture. \<exists>m>0. pid p = Num m"
    by (simp add: fixture_def fixture_ids)
  have c: "getProductById fixture (Num 0) = None"
    using getProductById_first_match [of fixture 0] pos by simp
  have d: "getProductById fixture (Num (- 7)) = None"
    using getProductById_first_match [of fixture "- 7"] pos by simp
  have e: "getProductById fixture NaN = None"
    using getProductById_first_match [of fixture 0] by blast
  from a b c d e show ?thesis by blast
qed

text \<open>
  C7: GET \<^verbatim>\<open>/products\<close> answers 200 with one view for each product, in the order of
  the collection; a view has the fields of its product and the slug of its name. For
  the empty collection the answer is 200 with the empty list, never the not-found
  reply.
\<close>

theorem listRoute_all_products:
  "(\<exists>views. listRoute ps = \<lparr>code = 200, payload = ProductsBody views\<rparr> \<and>
      length views = length ps \<and>
      (\<forall>i<length ps.
         pid (views ! i) = pid (ps ! i) \<and> name (views ! i) = name (ps ! i) \<and>
         price (views ! i) = price (ps ! i) \<and> inStock (views ! i) = inStock (ps ! i) \<and>
         slug (views ! i) = slugify (name (ps ! i)))) \<and>
   getProducts ps = ps \<and>
   listRoute [] = \<lparr>code = 200, payload = ProductsBody []\<rparr> \<and>
   listRoute ps \<noteq> notFound"
proof (intro conjI)
  show "getProducts ps = ps"
    by (simp add: getProducts_def)
  show "\<exists>views. listRoute ps = \<lparr>code = 200, payload = ProductsBody views\<rparr> \<and>
      length views = length ps \<and>
      (\<forall>i<length ps.
         pid (views ! i) = pid (ps ! i) \<and> name (views ! i) = name (ps ! i) \<and>
         price (views ! i) = price (ps ! i) \<and> inStock (views ! i) = inStock (ps ! i) \<and>
         slug (views ! i) = slugify (name (ps ! i)))"
    by (rule exI [of _ "map productResponse ps"])
       (simp add: listRoute_def getProducts_def productResponse_def)
  show "listRoute [] = \<lparr>code = 200, payload = ProductsBody []\<rparr>"
    by (simp add: listRoute_def getProducts_def)
  show "listRoute ps \<noteq> notFound"
    by (simp add: listRoute_def notFound_def)
qed

theorem listRoute_all_products_witness:
  "code (listRoute [widget, gadget]) = 200 \<and>
   (\<exists>views. payload (listRoute [widget, gadget]) = ProductsBody views \<and>
      length views = 2 \<and>
      pid (views ! 0) = Num 1 \<and> name (views ! 0) = ''Widget'' \<and> slug (views ! 0) = ''widget'' \<and>
      pid (views ! 1) = Num 2 \<and> name (views ! 1) = ''Gadget'' \<and> slug (views ! 1) = ''gadget'')"
proof -
  let ?ps = "[widget, gadget]"
  obtain views where v: "listRoute ?ps = \<lparr>code = 200, payload = ProductsBody views\<rparr>"
    and len: "length views = length ?ps"
    and each: "\<forall>i<length ?ps.
         pid (views ! i) = pid (?ps ! i) \<and> name (views ! i) = name (?ps ! i) \<and>
         price (views ! i) = price (?ps ! i) \<and> inStock (views ! i) = inStock (?ps ! i) \<and>
         slug (views ! i) = slugify (name (?ps ! i))"
    using listRoute_all_products [of ?ps] by blast
  from each have "pid (views ! 0) = Num 1 \<and> name (views ! 0) = ''Widget'' \<and>
      slug (views ! 0) = ''widget''"
    by (simp add: fixture_slugs fixture_ids) (simp add: widget_def)
  moreover from each have "pid (views ! 1) = Num 2 \<and> name (views ! 1) = ''Gadget'' \<and>
      slug (views ! 1) = ''gadget''"
    by (simp add: fixture_slugs fixture_ids) (simp add: gadget_def)
  ultimately show ?thesis
    using v len by simp
qed

section \<open>Prices\<close>















end
